theory Spec2Isabelle
  imports Complex_Main "HOL-Library.Word"
begin

unbundle bit_operations_syntax

section \<open>Data model of opendlv-video-h264-encoder.cpp\<close>

text \<open>
  The program is one function, \<open>main\<close>. It parses its command line, attaches to a shared
  memory area holding an I420 frame, configures an openh264 encoder, and then loops:
  wait, lock, encode, copy the layers of the result into \<open>h264Buffer\<close>, unlock, send.
  The shared memory, the encoder and the OD4 session are external; every value they hand
  back is an input of the model, every call made to them is an event of the trace.
\<close>

type_synonym byte = "8 word"
type_synonym uint32_t = "32 word"
type_synonym uint16_t = "16 word"

subsection \<open>Undefined behaviour and uncaught exceptions\<close>

text \<open>
  \<open>memcpy\<close> and the array reads of the assembly loop are unchecked in the source. Where the
  C++ program would read or write outside an object, or overflow an \<open>int\<close>, the model
  returns a \<open>fault\<close> instead of a value.
\<close>

datatype fault = ReadOutOfBounds | WriteOutOfBounds | SignedOverflow

datatype exn = invalid_argument | out_of_range

subsection \<open>The encoder's result: SFrameBSInfo and SLayerBSInfo\<close>

datatype EVideoFrameType =
  videoFrameTypeInvalid | videoFrameTypeIDR | videoFrameTypeI | videoFrameTypeP
  | videoFrameTypeSkip | videoFrameTypeIPMixed

text \<open>
  \<open>pNalLengthInByte\<close> and \<open>pBsBuf\<close> are pointers into memory owned by the encoder; the
  lists are the elements readable from the pointer on. \<open>sLayerInfo\<close> is the array inside
  the struct. C \<open>int\<close> values are \<open>int\<close>, with the overflow check written out where the
  program adds them.
\<close>

record SLayerBSInfo =
  iNalCount :: int
  pNalLengthInByte :: "int list"
  pBsBuf :: "byte list"

record SFrameBSInfo =
  iLayerNum :: int
  sLayerInfo :: "SLayerBSInfo list"
  eFrameType :: EVideoFrameType

definition INT_MAX :: int where
  "INT_MAX = 2147483647"

definition int_add :: "int \<Rightarrow> int \<Rightarrow> fault + int" where
  "int_add a b = (if a + b < - INT_MAX - 1 \<or> INT_MAX < a + b then Inl SignedOverflow else Inr (a + b))"

definition read_at :: "'a list \<Rightarrow> int \<Rightarrow> fault + 'a" where
  "read_at xs i = (if 0 \<le> i \<and> nat i < length xs then Inr (xs ! nat i) else Inl ReadOutOfBounds)"

text \<open>
  \<open>memcpy(&dst[off], src, n)\<close>: the \<open>n\<close> bytes at \<open>src\<close> replace the bytes
  \<open>off ..< off + n\<close> of \<open>dst\<close>. A negative \<open>off\<close> or \<open>n\<close> becomes a huge \<open>size_t\<close>
  and leaves the vector; so does \<open>off + n > dst.size()\<close>. A copy of no bytes at
  \<open>off = dst.size()\<close> touches nothing and is let through.
\<close>

definition memcpy :: "byte list \<Rightarrow> int \<Rightarrow> byte list \<Rightarrow> int \<Rightarrow> fault + byte list" where
  "memcpy dst off src n =
     (if off < 0 \<or> n < 0 \<or> int (length dst) < off + n then Inl WriteOutOfBounds
      else if int (length src) < n then Inl ReadOutOfBounds
      else Inr (take (nat off) dst @ take (nat n) src @ drop (nat off + nat n) dst))"

subsection \<open>Assembly of the access unit (lines 145 to 156)\<close>

text \<open>The inner loop: \<open>for (int nal{0}; nal < iNalCount; nal++) sizeOfLayer += pNalLengthInByte[nal]\<close>.\<close>

function sizeOfLayer_loop :: "SLayerBSInfo \<Rightarrow> int \<Rightarrow> int \<Rightarrow> fault + int" where
  "sizeOfLayer_loop l nal sizeOfLayer =
     (if nal < iNalCount l then
        (case read_at (pNalLengthInByte l) nal of
           Inl f \<Rightarrow> Inl f
         | Inr len \<Rightarrow>
             (case int_add sizeOfLayer len of
                Inl f \<Rightarrow> Inl f
              | Inr s \<Rightarrow> sizeOfLayer_loop l (nal + 1) s))
      else Inr sizeOfLayer)"
  by pat_completeness auto
termination
  by (relation "measure (\<lambda>(l, nal, s). nat (iNalCount l - nal))") auto

declare sizeOfLayer_loop.simps [simp del]

text \<open>
  The outer loop, with \<open>totalSize\<close> and the contents of \<open>h264Buffer\<close> as its state:
  the size of the layer is summed, that many bytes are copied from \<open>pBsBuf\<close> to
  \<open>&h264Buffer[totalSize]\<close>, and \<open>totalSize\<close> grows by the size.
\<close>

function layer_loop :: "SFrameBSInfo \<Rightarrow> int \<Rightarrow> int \<Rightarrow> byte list \<Rightarrow> fault + (int \<times> byte list)" where
  "layer_loop frameInfo layer totalSize h264Buffer =
     (if layer < iLayerNum frameInfo then
        (case read_at (sLayerInfo frameInfo) layer of
           Inl f \<Rightarrow> Inl f
         | Inr l \<Rightarrow>
             (case sizeOfLayer_loop l 0 0 of
                Inl f \<Rightarrow> Inl f
              | Inr sizeOfLayer \<Rightarrow>
                  (case memcpy h264Buffer totalSize (pBsBuf l) sizeOfLayer of
                     Inl f \<Rightarrow> Inl f
                   | Inr h264Buffer' \<Rightarrow>
                       (case int_add totalSize sizeOfLayer of
                          Inl f \<Rightarrow> Inl f
                        | Inr totalSize' \<Rightarrow> layer_loop frameInfo (layer + 1) totalSize' h264Buffer'))))
      else Inr (totalSize, h264Buffer))"
  by pat_completeness auto
termination
  by (relation "measure (\<lambda>(fi, layer, t, b). nat (iLayerNum fi - layer))") auto

declare layer_loop.simps [simp del]

text \<open>
  The \<open>else\<close> branch of the frame-type test: run the layer loop from \<open>totalSize = 0\<close>; when
  \<open>0 < totalSize\<close>, \<open>h264DataForImageReading\<close> becomes the first \<open>totalSize\<close> bytes of the
  buffer, otherwise it keeps the value it had (empty, it was cleared before the lock).
  The result is the new buffer and the new string.
\<close>

definition assemble :: "SFrameBSInfo \<Rightarrow> byte list \<Rightarrow> byte list \<Rightarrow> fault + (byte list \<times> byte list)" where
  "assemble frameInfo h264Buffer h264DataForImageReading =
     (case layer_loop frameInfo 0 0 h264Buffer of
        Inl f \<Rightarrow> Inl f
      | Inr (totalSize, h264Buffer') \<Rightarrow>
          Inr (h264Buffer',
               if 0 < totalSize then take (nat totalSize) h264Buffer' else h264DataForImageReading))"

subsection \<open>The source picture handed to the encoder (lines 125 to 137)\<close>

datatype EVideoFormatType = videoFormatI420

text \<open>
  \<open>iPicWidth\<close>, \<open>iPicHeight\<close> and \<open>iStride\<close> are \<open>int\<close> fields that receive \<open>uint32_t\<close> values:
  the model keeps the 32 bits stored. A plane pointer is \<open>Some k\<close> for
  \<open>sharedMemory->data() + k\<close> and \<open>None\<close> for the null pointer the \<open>memset\<close> leaves in the
  fourth entry. The offsets are computed in \<open>uint32_t\<close> before they are added to the pointer.
\<close>

record SSourcePicture =
  iColorFormat :: EVideoFormatType
  iStride :: "uint32_t list"
  pData :: "nat option list"
  srcPicWidth :: uint32_t
  srcPicHeight :: uint32_t

definition plane_offsets :: "uint32_t \<Rightarrow> uint32_t \<Rightarrow> uint32_t list" where
  "plane_offsets WIDTH HEIGHT =
     [0, WIDTH * HEIGHT, WIDTH * HEIGHT + drop_bit 2 (WIDTH * HEIGHT)]"

definition sourceFrame :: "uint32_t \<Rightarrow> uint32_t \<Rightarrow> SSourcePicture" where
  "sourceFrame WIDTH HEIGHT =
     \<lparr> iColorFormat = videoFormatI420,
       iStride = [WIDTH, WIDTH div 2, WIDTH div 2, 0],
       pData = map (\<lambda>off. Some (unat off)) (plane_offsets WIDTH HEIGHT) @ [None],
       srcPicWidth = WIDTH,
       srcPicHeight = HEIGHT \<rparr>"

subsection \<open>Encoder parameters (lines 67 to 101)\<close>

datatype RC_MODES =
  RC_QUALITY_MODE | RC_BITRATE_MODE | RC_BUFFERBASED_MODE | RC_TIMESTAMP_MODE
  | RC_BITRATE_MODE_POST_SKIP | RC_OFF_MODE

datatype EParameterSetStrategy =
  CONSTANT_ID | INCREASING_ID | SPS_LISTING | SPS_LISTING_AND_PPS_INCREASING | SPS_PPS_LISTING

datatype SliceModeEnum =
  SM_SINGLE_SLICE | SM_FIXEDSLCNUM_SLICE | SM_RASTER_SLICE | SM_SIZELIMITED_SLICE | SM_RESERVED

datatype WelsLogLevel = WELS_LOG_QUIET | WELS_LOG_INFO

record SSliceArgument =
  uiSliceMode :: SliceModeEnum
  uiSliceNum :: int

record SSpatialLayerConfig =
  iVideoWidth :: uint32_t
  iVideoHeight :: uint32_t
  fFrameRate :: real
  iSpatialBitrate :: int
  iMaxSpatialBitrate :: int
  sSliceArgument :: SSliceArgument

text \<open>
  The fields of \<open>SEncParamExt\<close> that the program assigns. \<open>sSpatialLayers\<close> is a C array,
  indexed from 0. The float \<open>fMaxFrameRate\<close> only ever receives the integer 20.
\<close>

record SEncParamExt =
  fMaxFrameRate :: real
  iPicWidth :: uint32_t
  iPicHeight :: uint32_t
  iTargetBitrate :: int
  iMaxBitrate :: int
  iRCMode :: RC_MODES
  iTemporalLayerNum :: int
  iSpatialLayerNum :: int
  bEnableAdaptiveQuant :: bool
  bEnableBackgroundDetection :: bool
  bEnableDenoise :: bool
  bEnableFrameSkip :: bool
  bEnableLongTermReference :: bool
  iLtrMarkPeriod :: int
  uiIntraPeriod :: uint32_t
  eSpsPpsIdStrategy :: EParameterSetStrategy
  bPrefixNalAddingCtrl :: bool
  iLoopFilterDisableIdc :: int
  iEntropyCodingModeFlag :: int
  iMultipleThreadIdc :: int
  sSpatialLayers :: "nat \<Rightarrow> SSpatialLayerConfig"

text \<open>
  \<open>parameters\<close> starts as what \<open>GetDefaultParams\<close> filled in (an input: the encoder is
  external) and is then assigned field by field, in the order of the source. The
  assignments to \<open>sSpatialLayers[0]\<close> read the fields set just before.
\<close>

definition parameters :: "SEncParamExt \<Rightarrow> uint32_t \<Rightarrow> uint32_t \<Rightarrow> uint32_t \<Rightarrow> SEncParamExt" where
  "parameters defaults WIDTH HEIGHT GOP =
     (let p = defaults
            \<lparr> fMaxFrameRate := 20,
              iPicWidth := WIDTH,
              iPicHeight := HEIGHT,
              iTargetBitrate := 2500000,
              iMaxBitrate := 5000000,
              iRCMode := RC_QUALITY_MODE,
              iTemporalLayerNum := 1,
              iSpatialLayerNum := 1,
              bEnableAdaptiveQuant := True,
              bEnableBackgroundDetection := True,
              bEnableDenoise := False,
              bEnableFrameSkip := False,
              bEnableLongTermReference := False,
              iLtrMarkPeriod := 30,
              uiIntraPeriod := GOP,
              eSpsPpsIdStrategy := CONSTANT_ID,
              bPrefixNalAddingCtrl := False,
              iLoopFilterDisableIdc := 0,
              iEntropyCodingModeFlag := 0,
              iMultipleThreadIdc := 1,
              iEntropyCodingModeFlag := 0 \<rparr>;
          l0 = (sSpatialLayers p 0)
            \<lparr> iVideoWidth := iPicWidth p,
              iVideoHeight := iPicHeight p,
              fFrameRate := fMaxFrameRate p,
              iSpatialBitrate := iTargetBitrate p,
              iMaxSpatialBitrate := iMaxBitrate p,
              sSliceArgument := (sSliceArgument (sSpatialLayers p 0))
                \<lparr> uiSliceMode := SM_SIZELIMITED_SLICE, uiSliceNum := 1 \<rparr> \<rparr>
      in p \<lparr> sSpatialLayers := (sSpatialLayers p)(0 := l0) \<rparr>)"

subsection \<open>The published message and the trace of external calls\<close>

record ImageReading =
  format :: string
  width :: uint32_t
  height :: uint32_t
  data :: "byte list"

datatype event =
    cerr_usage
  | SharedMemory_attach string
  | clog_attached
  | cerr_failed_to_attach
  | WelsCreateSVCEncoder
  | cerr_failed_to_create
  | SetOption_TRACE_LEVEL WelsLogLevel
  | GetDefaultParams_call
  | InitializeExt SEncParamExt
  | cerr_failed_to_set_parameters
  | OD4Session_open uint16_t
  | SharedMemory_valid bool
  | OD4Session_isRunning bool
  | SharedMemory_wait
  | SharedMemory_lock
  | EncodeFrame SSourcePicture
  | cerr_skipping_frame
  | cerr_failed_to_encode int
  | SharedMemory_unlock
  | OD4Session_send ImageReading
  | Uninitialize
  | WelsDestroySVCEncoder

text \<open>Kinds of events, for statements about traces.\<close>

definition is_send :: "event \<Rightarrow> bool" where
  "is_send e = (case e of OD4Session_send m \<Rightarrow> True | _ \<Rightarrow> False)"

definition is_poll :: "event \<Rightarrow> bool" where
  "is_poll e = (case e of SharedMemory_valid b \<Rightarrow> True | _ \<Rightarrow> False)"

definition is_encode :: "event \<Rightarrow> bool" where
  "is_encode e = (case e of EncodeFrame p \<Rightarrow> True | _ \<Rightarrow> False)"

subsection \<open>One iteration of the loop (lines 116 to 169)\<close>

text \<open>What \<open>EncodeFrame\<close> hands back: its return value and the \<open>frameInfo\<close> it filled.\<close>

record encode_reply =
  result :: int
  frameInfo :: SFrameBSInfo

definition cmResultSuccess :: int where
  "cmResultSuccess = 0"

text \<open>The two objects that live across iterations.\<close>

record loop_state =
  h264Buffer :: "byte list"
  h264DataForImageReading :: "byte list"

text \<open>
  The block between \<open>lock\<close> and \<open>unlock\<close> (lines 121 to 162): the call of the encoder and
  the three branches on its reply. Only the branch of a successful, non-skipped frame
  touches the buffer; an out-of-bounds copy there ends the defined behaviour of the
  program, and the trace stops at the call that preceded it.
\<close>

definition locked_block ::
  "uint32_t \<Rightarrow> uint32_t \<Rightarrow> encode_reply \<Rightarrow> loop_state \<Rightarrow> event list \<times> (fault + loop_state)" where
  "locked_block WIDTH HEIGHT reply st =
     (if cmResultSuccess = result reply then
        (if videoFrameTypeSkip = eFrameType (frameInfo reply) then
           ([EncodeFrame (sourceFrame WIDTH HEIGHT), cerr_skipping_frame], Inr st)
         else
           (case assemble (frameInfo reply) (h264Buffer st) (h264DataForImageReading st) of
              Inl f \<Rightarrow> ([EncodeFrame (sourceFrame WIDTH HEIGHT)], Inl f)
            | Inr (buf, dat) \<Rightarrow>
                ([EncodeFrame (sourceFrame WIDTH HEIGHT)],
                 Inr \<lparr> h264Buffer = buf, h264DataForImageReading = dat \<rparr>)))
      else
        ([EncodeFrame (sourceFrame WIDTH HEIGHT), cerr_failed_to_encode (result reply)], Inr st))"

text \<open>Lines 165 to 169: the message is built and sent when the string is not empty.\<close>

definition publish :: "uint32_t \<Rightarrow> uint32_t \<Rightarrow> loop_state \<Rightarrow> event list" where
  "publish WIDTH HEIGHT st =
     (if h264DataForImageReading st \<noteq> [] then
        [OD4Session_send \<lparr> format = ''h264'', width = WIDTH, height = HEIGHT,
                           data = h264DataForImageReading st \<rparr>]
      else [])"

definition loop_body ::
  "uint32_t \<Rightarrow> uint32_t \<Rightarrow> encode_reply \<Rightarrow> loop_state \<Rightarrow> event list \<times> (fault + loop_state)" where
  "loop_body WIDTH HEIGHT reply st =
     (case locked_block WIDTH HEIGHT reply (st \<lparr> h264DataForImageReading := [] \<rparr>) of
        (evs, Inl f) \<Rightarrow> ([SharedMemory_wait, SharedMemory_lock] @ evs, Inl f)
      | (evs, Inr st') \<Rightarrow>
          ([SharedMemory_wait, SharedMemory_lock] @ evs @ [SharedMemory_unlock]
             @ publish WIDTH HEIGHT st',
           Inr st'))"

subsection \<open>The loop (line 115)\<close>

text \<open>
  What the environment answers in one iteration: \<open>sharedMemory->valid()\<close> and
  \<open>od4.isRunning()\<close> at the loop condition, and the reply of the encoder. The loop runs
  for as long as the environment lets it, so the model runs it over a finite list of
  such answers and reports \<open>Pending\<close> when the list ends with the loop still going.
\<close>

record iteration_input =
  valid :: bool
  isRunning :: bool
  reply :: encode_reply

datatype loop_outcome = Exited loop_state | Undefined fault | Pending loop_state

fun while_loop ::
  "uint32_t \<Rightarrow> uint32_t \<Rightarrow> iteration_input list \<Rightarrow> loop_state \<Rightarrow> event list \<times> loop_outcome" where
  "while_loop WIDTH HEIGHT [] st = ([], Pending st)"
| "while_loop WIDTH HEIGHT (i # rest) st =
     (if \<not> valid i then ([SharedMemory_valid False], Exited st)
      else if \<not> isRunning i then ([SharedMemory_valid True, OD4Session_isRunning False], Exited st)
      else
        (case loop_body WIDTH HEIGHT (reply i) st of
           (evs, Inl f) \<Rightarrow> ([SharedMemory_valid True, OD4Session_isRunning True] @ evs, Undefined f)
         | (evs, Inr st') \<Rightarrow>
             (case while_loop WIDTH HEIGHT rest st' of
                (evs', out) \<Rightarrow>
                  ([SharedMemory_valid True, OD4Session_isRunning True] @ evs @ evs', out))))"

subsection \<open>The loop and the state of the region\<close>


record wait_cycle =
  region_invalid_after :: "nat option"
  running :: bool
  encoder_reply :: encode_reply






subsection \<open>Command line and start-up (lines 28 to 113, 172 to 183)\<close>

text \<open>
  \<open>std::stoi\<close> on the C string: leading white space is skipped, an optional sign is read,
  then the longest run of decimal digits. No digit at all throws \<open>invalid_argument\<close>; a
  value that does not fit an \<open>int\<close> throws \<open>out_of_range\<close>. Nothing in \<open>main\<close> catches
  either.
\<close>

definition isspace :: "char \<Rightarrow> bool" where
  "isspace c = (c \<in> set [CHR '' '', CHR 0x09, CHR 0x0A, CHR 0x0B, CHR 0x0C, CHR 0x0D])"

definition isdigit :: "char \<Rightarrow> bool" where
  "isdigit c = ((48::nat) \<le> of_char c \<and> of_char c \<le> (57::nat))"

definition digits_value :: "string \<Rightarrow> nat" where
  "digits_value ds = foldl (\<lambda>acc c. 10 * acc + (of_char c - 48)) 0 ds"

definition stoi :: "string \<Rightarrow> exn + int" where
  "stoi str =
     (let s0 = takeWhile (\<lambda>c. c \<noteq> CHR 0x00) str;
          s1 = dropWhile isspace s0;
          neg = (s1 \<noteq> [] \<and> hd s1 = CHR ''-'');
          s2 = (if s1 \<noteq> [] \<and> (hd s1 = CHR ''-'' \<or> hd s1 = CHR ''+'') then tl s1 else s1);
          ds = takeWhile isdigit s2;
          v = (if neg then - int (digits_value ds) else int (digits_value ds))
      in if ds = [] then Inl invalid_argument
         else if v < - INT_MAX - 1 \<or> INT_MAX < v then Inl out_of_range
         else Inr v)"

text \<open>
  \<open>commandlineArguments\<close> is a \<open>std::map\<close> from string to string: \<open>count\<close> is 1 for a key
  that is present, and \<open>operator[]\<close> gives the empty string for one that is not.
\<close>

definition count :: "(string \<rightharpoonup> string) \<Rightarrow> string \<Rightarrow> nat" where
  "count m k = (if k \<in> dom m then 1 else 0)"

definition subscript :: "(string \<rightharpoonup> string) \<Rightarrow> string \<Rightarrow> string" where
  "subscript m k = (case m k of None \<Rightarrow> [] | Some v \<Rightarrow> v)"

definition GOP_DEFAULT :: uint32_t where
  "GOP_DEFAULT = 10"

record settings =
  NAME :: string
  WIDTH :: uint32_t
  HEIGHT :: uint32_t
  GOP :: uint32_t
  VERBOSE :: bool

text \<open>Lines 46 to 51. The casts \<open>static_cast<uint32_t>\<close> keep the low 32 bits.\<close>

definition read_settings :: "(string \<rightharpoonup> string) \<Rightarrow> exn + settings" where
  "read_settings commandlineArguments =
     (case stoi (subscript commandlineArguments ''width'') of
        Inl e \<Rightarrow> Inl e
      | Inr w \<Rightarrow>
          (case stoi (subscript commandlineArguments ''height'') of
             Inl e \<Rightarrow> Inl e
           | Inr h \<Rightarrow>
               (case (if length (subscript commandlineArguments ''gop'') \<noteq> 0
                      then map_sum id word_of_int (stoi (subscript commandlineArguments ''gop''))
                      else Inr GOP_DEFAULT) of
                  Inl e \<Rightarrow> Inl e
                | Inr g \<Rightarrow>
                    Inr \<lparr> NAME = subscript commandlineArguments ''name'',
                          WIDTH = word_of_int w,
                          HEIGHT = word_of_int h,
                          GOP = g,
                          VERBOSE = (count commandlineArguments ''verbose'' \<noteq> 0) \<rparr>)))"

text \<open>What the environment answers during start-up.\<close>

record startup_input =
  attached_valid :: bool
  WelsCreateSVCEncoder_result :: int
  encoder_is_null :: bool
  GetDefaultParams :: SEncParamExt
  InitializeExt_result :: int

datatype main_outcome = Return int | Terminate exn | UndefinedBehaviour fault | Running

text \<open>Line 109: \<open>h264Buffer.resize(WIDTH * HEIGHT, '0')\<close>, the product taken in \<open>uint32_t\<close>.\<close>

definition h264Buffer_init :: "uint32_t \<Rightarrow> uint32_t \<Rightarrow> byte list" where
  "h264Buffer_init W H = replicate (unat (W * H)) (of_char CHR ''0'')"

definition loop_and_shutdown ::
  "settings \<Rightarrow> iteration_input list \<Rightarrow> event list \<times> main_outcome" where
  "loop_and_shutdown cfg inputs =
     (case while_loop (WIDTH cfg) (HEIGHT cfg) inputs
             \<lparr> h264Buffer = h264Buffer_init (WIDTH cfg) (HEIGHT cfg),
               h264DataForImageReading = [] \<rparr> of
        (evs, Exited st) \<Rightarrow> (evs @ [Uninitialize, WelsDestroySVCEncoder], Return 0)
      | (evs, Undefined f) \<Rightarrow> (evs, UndefinedBehaviour f)
      | (evs, Pending st) \<Rightarrow> (evs, Running))"

definition main ::
  "(string \<rightharpoonup> string) \<Rightarrow> startup_input \<Rightarrow> iteration_input list \<Rightarrow> event list \<times> main_outcome" where
  "main commandlineArguments env inputs =
     (if 0 = count commandlineArguments ''cid'' \<or> 0 = count commandlineArguments ''name''
         \<or> 0 = count commandlineArguments ''width'' \<or> 0 = count commandlineArguments ''height''
      then ([cerr_usage], Return 1)
      else
        (case read_settings commandlineArguments of
           Inl e \<Rightarrow> ([], Terminate e)
         | Inr cfg \<Rightarrow>
             (if attached_valid env then
                (if 0 \<noteq> WelsCreateSVCEncoder_result env \<or> encoder_is_null env then
                   ([SharedMemory_attach (NAME cfg), clog_attached, WelsCreateSVCEncoder,
                     cerr_failed_to_create], Return 1)
                 else
                   (let start =
                          [SharedMemory_attach (NAME cfg), clog_attached, WelsCreateSVCEncoder,
                           SetOption_TRACE_LEVEL (if VERBOSE cfg then WELS_LOG_INFO else WELS_LOG_QUIET),
                           GetDefaultParams_call,
                           InitializeExt (parameters (GetDefaultParams env) (WIDTH cfg) (HEIGHT cfg) (GOP cfg))]
                    in if cmResultSuccess \<noteq> InitializeExt_result env then
                         (start @ [cerr_failed_to_set_parameters], Return 1)
                       else
                         (case stoi (subscript commandlineArguments ''cid'') of
                            Inl e \<Rightarrow> (start, Terminate e)
                          | Inr cid \<Rightarrow>
                              (case loop_and_shutdown cfg inputs of
                                 (evs, out) \<Rightarrow> (start @ [OD4Session_open (word_of_int cid)] @ evs, out)))))
              else ([SharedMemory_attach (NAME cfg), cerr_failed_to_attach], Return 1))))"

section \<open>The encoder's side of the contract\<close>

text \<open>
  The program reads the encoder's result through \<open>iLayerNum\<close>, \<open>iNalCount\<close>,
  \<open>pNalLengthInByte\<close> and \<open>pBsBuf\<close> only. The NAL units of a layer lie one after the other
  in \<open>pBsBuf\<close>, with the lengths listed in \<open>pNalLengthInByte\<close>: \<open>nal_payloads\<close> cuts them
  out, and \<open>access_unit_of\<close> is their concatenation, layer by layer. A result is
  well formed (\<open>frame_ok\<close>) when the counts stay inside the arrays, no length is negative,
  every layer's buffer holds the bytes its lengths announce, and the total fits an \<open>int\<close>.
\<close>

definition nal_lengths :: "SLayerBSInfo \<Rightarrow> int list" where
  "nal_lengths l = take (nat (iNalCount l)) (pNalLengthInByte l)"

definition layers :: "SFrameBSInfo \<Rightarrow> SLayerBSInfo list" where
  "layers fi = take (nat (iLayerNum fi)) (sLayerInfo fi)"

definition layer_size :: "SLayerBSInfo \<Rightarrow> int" where
  "layer_size l = sum_list (nal_lengths l)"

definition total_size :: "SFrameBSInfo \<Rightarrow> int" where
  "total_size fi = sum_list (map layer_size (layers fi))"

definition layer_ok :: "SLayerBSInfo \<Rightarrow> bool" where
  "layer_ok l = (nat (iNalCount l) \<le> length (pNalLengthInByte l)
     \<and> (\<forall>n \<in> set (nal_lengths l). 0 \<le> n)
     \<and> layer_size l \<le> int (length (pBsBuf l)))"

definition frame_ok :: "SFrameBSInfo \<Rightarrow> bool" where
  "frame_ok fi = (nat (iLayerNum fi) \<le> length (sLayerInfo fi)
     \<and> (\<forall>l \<in> set (layers fi). layer_ok l)
     \<and> total_size fi \<le> INT_MAX)"

definition layer_bytes :: "SLayerBSInfo \<Rightarrow> byte list" where
  "layer_bytes l = take (nat (layer_size l)) (pBsBuf l)"

fun split_nals :: "int list \<Rightarrow> byte list \<Rightarrow> byte list list" where
  "split_nals [] bs = []"
| "split_nals (n # ns) bs = take (nat n) bs # split_nals ns (drop (nat n) bs)"

definition nal_payloads :: "SLayerBSInfo \<Rightarrow> byte list list" where
  "nal_payloads l = split_nals (nal_lengths l) (pBsBuf l)"

definition access_unit_of :: "SFrameBSInfo \<Rightarrow> byte list" where
  "access_unit_of fi = concat (map (\<lambda>l. concat (nal_payloads l)) (layers fi))"

section \<open>Concrete inputs\<close>

text \<open>
  Inputs on which the theorems below are exercised. \<open>example_frame\<close> is a result of two
  layers (two NAL units of 3 and 2 bytes, then one of 4 bytes) for a 4 by 4 picture;
  \<open>oversized_frame\<close> is a key frame of 300 bytes (parameter sets of 14 and 8 bytes, a slice
  of 278 bytes) for a 16 by 16 picture, whose buffer holds 256 bytes. The command lines
  are the example of the usage message and a variation of it.
\<close>

definition example_frame :: SFrameBSInfo where
  "example_frame =
     \<lparr> iLayerNum = 2,
       sLayerInfo =
         [\<lparr> iNalCount = 2, pNalLengthInByte = [3, 2], pBsBuf = [1, 2, 3, 4, 5, 99] \<rparr>,
          \<lparr> iNalCount = 1, pNalLengthInByte = [4], pBsBuf = [6, 7, 8, 9] \<rparr>],
       eFrameType = videoFrameTypeIDR \<rparr>"

definition oversized_frame :: SFrameBSInfo where
  "oversized_frame =
     \<lparr> iLayerNum = 2,
       sLayerInfo =
         [\<lparr> iNalCount = 2, pNalLengthInByte = [14, 8], pBsBuf = replicate 22 0 \<rparr>,
          \<lparr> iNalCount = 1, pNalLengthInByte = [278], pBsBuf = replicate 278 0 \<rparr>],
       eFrameType = videoFrameTypeIDR \<rparr>"

definition example_state :: loop_state where
  "example_state = \<lparr> h264Buffer = h264Buffer_init 4 4, h264DataForImageReading = [] \<rparr>"

definition example_defaults :: SEncParamExt where
  "example_defaults =
     \<lparr> fMaxFrameRate = 60, iPicWidth = 0, iPicHeight = 0, iTargetBitrate = 0, iMaxBitrate = 0,
       iRCMode = RC_BITRATE_MODE, iTemporalLayerNum = 4, iSpatialLayerNum = 4,
       bEnableAdaptiveQuant = False, bEnableBackgroundDetection = False, bEnableDenoise = True,
       bEnableFrameSkip = True, bEnableLongTermReference = True, iLtrMarkPeriod = 0,
       uiIntraPeriod = 0, eSpsPpsIdStrategy = INCREASING_ID, bPrefixNalAddingCtrl = True,
       iLoopFilterDisableIdc = 1, iEntropyCodingModeFlag = 1, iMultipleThreadIdc = 0,
       sSpatialLayers = (\<lambda>k. \<lparr> iVideoWidth = 0, iVideoHeight = 0, fFrameRate = 0,
         iSpatialBitrate = 0, iMaxSpatialBitrate = 0,
         sSliceArgument = \<lparr> uiSliceMode = SM_SINGLE_SLICE, uiSliceNum = 0 \<rparr> \<rparr>) \<rparr>"

definition example_arguments :: "string \<rightharpoonup> string" where
  "example_arguments =
     [''cid'' \<mapsto> ''111'', ''name'' \<mapsto> ''data'', ''width'' \<mapsto> ''640'', ''height'' \<mapsto> ''480'',
      ''verbose'' \<mapsto> ''1'']"

definition example_startup :: startup_input where
  "example_startup =
     \<lparr> attached_valid = True, WelsCreateSVCEncoder_result = 0, encoder_is_null = False,
       GetDefaultParams = example_defaults, InitializeExt_result = 0 \<rparr>"

definition example_reply :: encode_reply where
  "example_reply = \<lparr> result = cmResultSuccess, frameInfo = example_frame \<rparr>"

definition skip_reply :: encode_reply where
  "skip_reply =
     \<lparr> result = cmResultSuccess,
       frameInfo = \<lparr> iLayerNum = 0, sLayerInfo = [], eFrameType = videoFrameTypeSkip \<rparr> \<rparr>"

definition failed_reply :: encode_reply where
  "failed_reply =
     \<lparr> result = 1,
       frameInfo = \<lparr> iLayerNum = 0, sLayerInfo = [], eFrameType = videoFrameTypeInvalid \<rparr> \<rparr>"

definition example_inputs :: "iteration_input list" where
  "example_inputs =
     [\<lparr> valid = True, isRunning = True, reply = example_reply \<rparr>,
      \<lparr> valid = True, isRunning = True, reply = failed_reply \<rparr>,
      \<lparr> valid = False, isRunning = True, reply = example_reply \<rparr>,
      \<lparr> valid = True, isRunning = True, reply = example_reply \<rparr>]"

definition oversized_reply :: encode_reply where
  "oversized_reply = \<lparr> result = cmResultSuccess, frameInfo = oversized_frame \<rparr>"

definition detaching_cycles :: "wait_cycle list" where
  "detaching_cycles =
     [\<lparr> region_invalid_after = Some 2, running = True, encoder_reply = example_reply \<rparr>,
      \<lparr> region_invalid_after = None, running = True, encoder_reply = example_reply \<rparr>]"

definition other_arguments :: "string \<rightharpoonup> string" where
  "other_arguments =
     [''cid'' \<mapsto> ''112'', ''name'' \<mapsto> ''cam0'', ''width'' \<mapsto> ''1920'', ''height'' \<mapsto> ''1080'',
      ''gop'' \<mapsto> ''25'']"

lemmas run_defs =
  example_frame_def example_state_def example_reply_def skip_reply_def failed_reply_def
  example_inputs_def oversized_reply_def detaching_cycles_def h264Buffer_init_def assemble_def memcpy_def read_at_def int_add_def
  INT_MAX_def loop_body_def locked_block_def publish_def cmResultSuccess_def
  layer_loop.simps sizeOfLayer_loop.simps

lemmas stoi_defs = stoi_def isspace_def isdigit_def digits_value_def INT_MAX_def

lemmas main_defs =
  main_def read_settings_def subscript_def count_def GOP_DEFAULT_def example_startup_def
  cmResultSuccess_def loop_and_shutdown_def

section \<open>Lemmas on the assembly loops\<close>

lemma sum_list_nonneg_int: "\<forall>x \<in> set xs. (0::int) \<le> x \<Longrightarrow> 0 \<le> sum_list xs"
  by (induction xs) auto

lemma sizeOfLayer_loop_sum:
  "0 \<le> nal \<Longrightarrow> nat (iNalCount l) \<le> length (pNalLengthInByte l) \<Longrightarrow>
   \<forall>n \<in> set (nal_lengths l). 0 \<le> n \<Longrightarrow> 0 \<le> acc \<Longrightarrow>
   acc + sum_list (drop (nat nal) (nal_lengths l)) \<le> INT_MAX \<Longrightarrow>
   sizeOfLayer_loop l nal acc = Inr (acc + sum_list (drop (nat nal) (nal_lengths l)))"
proof (induction l nal acc rule: sizeOfLayer_loop.induct)
  case (1 l nal acc)
  show ?case
  proof (cases "nal < iNalCount l")
    case False
    with "1.prems"(1) have "nat (iNalCount l) \<le> nat nal" by simp
    then have "drop (nat nal) (nal_lengths l) = []" by (simp add: nal_lengths_def)
    with False show ?thesis by (subst sizeOfLayer_loop.simps) simp
  next
    case True
    let ?x = "pNalLengthInByte l ! nat nal"
    from True "1.prems"(1,2) have lt: "nat nal < nat (iNalCount l)" "nat nal < length (pNalLengthInByte l)"
      by auto
    then have lt': "nat nal < length (nal_lengths l)" by (simp add: nal_lengths_def)
    have nth: "nal_lengths l ! nat nal = ?x" using lt by (simp add: nal_lengths_def)
    have dr: "drop (nat nal) (nal_lengths l) = ?x # drop (Suc (nat nal)) (nal_lengths l)"
      using Cons_nth_drop_Suc [OF lt'] nth by simp
    have x0: "0 \<le> ?x" using "1.prems"(3) lt' nth by (metis nth_mem)
    have rest0: "0 \<le> sum_list (drop (Suc (nat nal)) (nal_lengths l))"
      using "1.prems"(3) by (intro sum_list_nonneg_int) (auto dest: in_set_dropD)
    have rd: "read_at (pNalLengthInByte l) nal = Inr ?x"
      using lt "1.prems"(1) by (simp add: read_at_def)
    have ad: "int_add acc ?x = Inr (acc + ?x)"
      using x0 rest0 "1.prems"(4,5) dr by (simp add: int_add_def INT_MAX_def)
    have suc: "nat (nal + 1) = Suc (nat nal)" using "1.prems"(1) by simp
    have "sizeOfLayer_loop l (nal + 1) (acc + ?x)
            = Inr (acc + ?x + sum_list (drop (nat (nal + 1)) (nal_lengths l)))"
      using "1.prems" x0 dr suc by (intro "1.IH" [OF True rd ad]) auto
    with True rd ad dr suc show ?thesis
      by (subst sizeOfLayer_loop.simps) simp
  qed
qed

lemma sizeOfLayer_loop_ok:
  "layer_ok l \<Longrightarrow> layer_size l \<le> INT_MAX \<Longrightarrow> sizeOfLayer_loop l 0 0 = Inr (layer_size l)"
  using sizeOfLayer_loop_sum [of 0 l 0] by (simp add: layer_ok_def layer_size_def)

lemma layer_size_nonneg: "layer_ok l \<Longrightarrow> 0 \<le> layer_size l"
  by (simp add: layer_ok_def layer_size_def sum_list_nonneg_int)

lemma memcpy_ok:
  "0 \<le> t \<Longrightarrow> 0 \<le> n \<Longrightarrow> t + n \<le> int (length dst) \<Longrightarrow> n \<le> int (length src) \<Longrightarrow>
   memcpy dst t src n = Inr (take (nat t) dst @ take (nat n) src @ drop (nat (t + n)) dst)"
  by (simp add: memcpy_def nat_add_distrib)

lemma layer_loop_concat:
  "0 \<le> layer \<Longrightarrow> nat (iLayerNum fi) \<le> length (sLayerInfo fi) \<Longrightarrow>
   \<forall>l \<in> set (layers fi). layer_ok l \<Longrightarrow> 0 \<le> t \<Longrightarrow>
   t + sum_list (map layer_size (drop (nat layer) (layers fi))) \<le> INT_MAX \<Longrightarrow>
   t + sum_list (map layer_size (drop (nat layer) (layers fi))) \<le> int (length buf) \<Longrightarrow>
   layer_loop fi layer t buf =
     Inr (t + sum_list (map layer_size (drop (nat layer) (layers fi))),
          take (nat t) buf @ concat (map layer_bytes (drop (nat layer) (layers fi)))
            @ drop (nat (t + sum_list (map layer_size (drop (nat layer) (layers fi))))) buf)"
proof (induction fi layer t buf rule: layer_loop.induct)
  case (1 fi layer t buf)
  show ?case
  proof (cases "layer < iLayerNum fi")
    case False
    with "1.prems"(1) have "nat (iLayerNum fi) \<le> nat layer" by simp
    then have "drop (nat layer) (layers fi) = []" by (simp add: layers_def)
    with False show ?thesis by (subst layer_loop.simps) simp
  next
    case True
    let ?l = "sLayerInfo fi ! nat layer"
    let ?rest = "drop (Suc (nat layer)) (layers fi)"
    let ?S = "sum_list (map layer_size ?rest)"
    from True "1.prems"(1,2) have lt: "nat layer < nat (iLayerNum fi)" "nat layer < length (sLayerInfo fi)"
      by auto
    then have lt': "nat layer < length (layers fi)" by (simp add: layers_def)
    have nth: "layers fi ! nat layer = ?l" using lt by (simp add: layers_def)
    have dr: "drop (nat layer) (layers fi) = ?l # ?rest"
      using Cons_nth_drop_Suc [OF lt'] nth by simp
    have ok: "layer_ok ?l" using "1.prems"(3) lt' nth by (metis nth_mem)
    have s0: "0 \<le> layer_size ?l" using ok by (rule layer_size_nonneg)
    have rest0: "0 \<le> ?S"
      using "1.prems"(3) by (intro sum_list_nonneg_int) (auto dest: in_set_dropD intro: layer_size_nonneg)
    have bound: "t + layer_size ?l + ?S \<le> INT_MAX" "t + layer_size ?l + ?S \<le> int (length buf)"
      using "1.prems"(5,6) dr by simp_all
    have rd: "read_at (sLayerInfo fi) layer = Inr ?l"
      using lt "1.prems"(1) by (simp add: read_at_def)
    have sz: "sizeOfLayer_loop ?l 0 0 = Inr (layer_size ?l)"
      using ok bound rest0 "1.prems"(4) by (intro sizeOfLayer_loop_ok) auto
    let ?buf' = "take (nat t) buf @ take (nat (layer_size ?l)) (pBsBuf ?l) @ drop (nat (t + layer_size ?l)) buf"
    have cp: "memcpy buf t (pBsBuf ?l) (layer_size ?l) = Inr ?buf'"
      using "1.prems"(4) s0 bound rest0 ok by (intro memcpy_ok) (auto simp: layer_ok_def)
    have ad: "int_add t (layer_size ?l) = Inr (t + layer_size ?l)"
      using s0 rest0 "1.prems"(4) bound by (simp add: int_add_def INT_MAX_def)
    have suc: "nat (layer + 1) = Suc (nat layer)" using "1.prems"(1) by simp
    have nat_sum: "nat (t + layer_size ?l) = nat t + nat (layer_size ?l)"
      using "1.prems"(4) s0 by (simp add: nat_add_distrib)
    have fits: "nat t + nat (layer_size ?l) \<le> length buf"
      using "1.prems"(4) s0 bound rest0 by linarith
    have src: "nat (layer_size ?l) \<le> length (pBsBuf ?l)"
      using ok s0 unfolding layer_ok_def by linarith
    have len': "length ?buf' = length buf"
      using fits src by (simp add: nat_sum min_absorb2)
    have IH: "layer_loop fi (layer + 1) (t + layer_size ?l) ?buf' =
       Inr (t + layer_size ?l + ?S,
            take (nat (t + layer_size ?l)) ?buf' @ concat (map layer_bytes ?rest)
              @ drop (nat (t + layer_size ?l + ?S)) ?buf')"
      using "1.prems" s0 bound len' suc
      by (intro "1.IH" [OF True rd sz cp ad, unfolded suc]) auto
    have tk: "take (nat (t + layer_size ?l)) ?buf' = take (nat t) buf @ layer_bytes ?l"
      using fits src by (simp add: nat_sum layer_bytes_def min_absorb2)
    have nat_sum3: "nat (t + layer_size ?l + ?S) = nat t + nat (layer_size ?l) + nat ?S"
      using "1.prems"(4) s0 rest0 by (simp add: nat_add_distrib)
    have dp: "drop (nat (t + layer_size ?l + ?S)) ?buf' = drop (nat (t + layer_size ?l + ?S)) buf"
      using fits src by (simp add: nat_sum nat_sum3 min_absorb2 add.commute)
    show ?thesis
      using True rd sz cp ad IH tk dp dr
      by (subst layer_loop.simps) (simp add: add.assoc)
  qed
qed

lemma concat_split_nals:
  "\<forall>n \<in> set ns. 0 \<le> n \<Longrightarrow> concat (split_nals ns bs) = take (nat (sum_list ns)) bs"
proof (induction ns arbitrary: bs)
  case Nil
  then show ?case by simp
next
  case (Cons n ns)
  then have "0 \<le> n" "0 \<le> sum_list ns" by (auto intro: sum_list_nonneg_int)
  then have "nat (n + sum_list ns) = nat n + nat (sum_list ns)" by (simp add: nat_add_distrib)
  with Cons show ?case by (simp add: take_add)
qed

lemma layer_bytes_payloads: "layer_ok l \<Longrightarrow> layer_bytes l = concat (nal_payloads l)"
  by (simp add: layer_ok_def layer_bytes_def nal_payloads_def layer_size_def concat_split_nals)

lemma access_unit_of_layer_bytes:
  "\<forall>l \<in> set (layers fi). layer_ok l \<Longrightarrow> concat (map layer_bytes (layers fi)) = access_unit_of fi"
  unfolding access_unit_of_def
  by (rule arg_cong [where f = concat]) (simp add: layer_bytes_payloads)

lemma length_layer_bytes:
  assumes "layer_ok l"
  shows "int (length (layer_bytes l)) = layer_size l"
proof -
  have s0: "0 \<le> layer_size l" using assms by (rule layer_size_nonneg)
  moreover have "layer_size l \<le> int (length (pBsBuf l))" using assms by (simp add: layer_ok_def)
  ultimately have "nat (layer_size l) \<le> length (pBsBuf l)" by linarith
  then show ?thesis using s0 by (simp add: layer_bytes_def min_absorb2)
qed

lemma length_concat_layer_bytes:
  "\<forall>l \<in> set ls. layer_ok l \<Longrightarrow> int (length (concat (map layer_bytes ls))) = sum_list (map layer_size ls)"
  by (induction ls) (simp_all add: length_layer_bytes)

lemma length_access_unit_of:
  "frame_ok fi \<Longrightarrow> int (length (access_unit_of fi)) = total_size fi"
  using length_concat_layer_bytes [of "layers fi"] access_unit_of_layer_bytes [of fi]
  by (simp add: frame_ok_def total_size_def)

lemma layer_loop_frame:
  assumes "frame_ok fi" "total_size fi \<le> int (length buf)"
  shows "layer_loop fi 0 0 buf =
           Inr (total_size fi, access_unit_of fi @ drop (nat (total_size fi)) buf)"
proof -
  have ok: "\<forall>l \<in> set (layers fi). layer_ok l" using assms(1) by (simp add: frame_ok_def)
  have "layer_loop fi 0 0 buf =
     Inr (0 + sum_list (map layer_size (drop (nat 0) (layers fi))),
          take (nat 0) buf @ concat (map layer_bytes (drop (nat 0) (layers fi)))
            @ drop (nat (0 + sum_list (map layer_size (drop (nat 0) (layers fi))))) buf)"
    using assms ok by (intro layer_loop_concat) (simp_all add: frame_ok_def total_size_def)
  then show ?thesis
    using access_unit_of_layer_bytes [OF ok] by (simp add: total_size_def)
qed

lemma assemble_concatenation:
  assumes "frame_ok fi" "total_size fi \<le> int (length buf)"
  shows "assemble fi buf [] =
           Inr (access_unit_of fi @ drop (nat (total_size fi)) buf, access_unit_of fi)"
proof -
  have len: "int (length (access_unit_of fi)) = total_size fi"
    using assms(1) by (rule length_access_unit_of)
  then have "take (nat (total_size fi)) (access_unit_of fi @ drop (nat (total_size fi)) buf)
               = access_unit_of fi"
    by (metis append_eq_conv_conj nat_int)
  moreover have "access_unit_of fi = []" if "\<not> 0 < total_size fi"
  proof -
    from that len have "length (access_unit_of fi) = 0" by linarith
    then show ?thesis by simp
  qed
  ultimately show ?thesis
    using layer_loop_frame [OF assms] by (auto simp: assemble_def)
qed

lemma assemble_keeps_size:
  assumes "frame_ok fi" "total_size fi \<le> int (length buf)"
  shows "\<exists>buf' dat'. assemble fi buf dat = Inr (buf', dat') \<and> length buf' = length buf"
proof -
  have "int (length (access_unit_of fi)) = total_size fi"
    using assms(1) by (rule length_access_unit_of)
  then have "length (access_unit_of fi @ drop (nat (total_size fi)) buf) = length buf"
    using assms(2) by auto
  then show ?thesis
    using layer_loop_frame [OF assms] by (simp add: assemble_def)
qed

lemma h264Buffer_init_length: "length (h264Buffer_init W H) = unat (W * H)"
  by (simp add: h264Buffer_init_def)

lemma memcpy_length: "memcpy dst off src n = Inr dst' \<Longrightarrow> length dst' = length dst"
  by (auto simp: memcpy_def split: if_splits)

lemma layer_loop_length:
  "layer_loop fi layer t buf = Inr (t', buf') \<Longrightarrow> length buf' = length buf"
proof (induction fi layer t buf rule: layer_loop.induct)
  case (1 fi layer t buf)
  show ?case
  proof (cases "layer < iLayerNum fi")
    case False
    with "1.prems" show ?thesis by (subst (asm) layer_loop.simps) simp
  next
    case True
    from "1.prems" True obtain l s b1 t1 where
      steps: "read_at (sLayerInfo fi) layer = Inr l" "sizeOfLayer_loop l 0 0 = Inr s"
        "memcpy buf t (pBsBuf l) s = Inr b1" "int_add t s = Inr t1"
        and rec: "layer_loop fi (layer + 1) t1 b1 = Inr (t', buf')"
      by (subst (asm) layer_loop.simps) (auto split: sum.splits)
    from "1.IH" [OF True steps rec] memcpy_length [OF steps(3)] show ?thesis by simp
  qed
qed

lemma assemble_length:
  "assemble fi buf dat = Inr (buf', dat') \<Longrightarrow> length buf' = length buf"
  by (auto simp: assemble_def split: sum.splits dest: layer_loop_length)

lemma loop_body_length:
  "loop_body W H r st = (evs, Inr st') \<Longrightarrow> length (h264Buffer st') = length (h264Buffer st)"
  by (auto simp: loop_body_def locked_block_def split: if_splits sum.splits prod.splits
           dest: assemble_length)

lemma oversized_frame_ok: "frame_ok oversized_frame"
  by (simp add: oversized_frame_def frame_ok_def layers_def layer_ok_def nal_lengths_def
        layer_size_def total_size_def INT_MAX_def)

lemma example_frame_ok: "frame_ok example_frame \<and> total_size example_frame = 9"
  by (simp add: example_frame_def frame_ok_def layers_def layer_ok_def nal_lengths_def
        layer_size_def total_size_def INT_MAX_def)

section \<open>Lemmas on 32-bit offsets\<close>

lemma len32: "(2::nat) ^ LENGTH(32) = 4294967296"
  by simp

lemma even_unat:
  fixes w :: uint32_t
  assumes "even w"
  shows "even (unat w)"
proof -
  from assms have "w mod 2 = 0" by (simp add: even_iff_mod_2_eq_zero)
  then have "unat (w mod 2) = 0" by simp
  then have "unat w mod 2 = 0" by (simp add: unat_mod)
  then show ?thesis by (simp add: even_iff_mod_2_eq_zero)
qed

section \<open>Lemmas on the loop and on start-up\<close>

lemma loop_body_no_valid:
  "loop_body W H r st = (evs, out) \<Longrightarrow> SharedMemory_valid b \<notin> set evs"
  by (auto simp: loop_body_def locked_block_def publish_def split: if_splits sum.splits prod.splits)

lemma append_split_at:
  "xs @ ys = pre @ e # post \<Longrightarrow> e \<notin> set xs \<Longrightarrow> \<exists>pre'. pre = xs @ pre' \<and> ys = pre' @ e # post"
proof (induction xs arbitrary: pre)
  case Nil
  then show ?case by simp
next
  case (Cons x xs)
  then show ?case by (cases pre) auto
qed

lemma while_loop_after_invalid:
  "while_loop W H inputs st = (evs, out) \<Longrightarrow> evs = pre @ SharedMemory_valid False # post \<Longrightarrow>
   post = [] \<and> (\<exists>st'. out = Exited st')"
proof (induction inputs arbitrary: st evs out pre)
  case Nil
  then show ?case by simp
next
  case (Cons i rest)
  show ?case
  proof (cases "valid i \<and> isRunning i")
    case False
    with Cons.prems show ?thesis
      by (cases pre; cases "tl pre") (auto split: if_splits)
  next
    case True
    obtain bevs bout where body: "loop_body W H (reply i) st = (bevs, bout)"
      by (cases "loop_body W H (reply i) st")
    let ?head = "[SharedMemory_valid True, OD4Session_isRunning True] @ bevs"
    have nov: "SharedMemory_valid False \<notin> set ?head"
      using loop_body_no_valid [OF body] by simp
    show ?thesis
    proof (cases bout)
      case (Inl f)
      with True body Cons.prems(1) have "evs = ?head" by simp
      with nov Cons.prems(2) show ?thesis by (metis in_set_conv_decomp)
    next
      case (Inr st1)
      obtain evs' out' where rec: "while_loop W H rest st1 = (evs', out')"
        by (cases "while_loop W H rest st1")
      with True body Inr Cons.prems(1) have evs: "evs = ?head @ evs'" and out: "out = out'"
        by simp_all
      from evs Cons.prems(2) have "?head @ evs' = pre @ SharedMemory_valid False # post" by simp
      from append_split_at [OF this nov]
      obtain pre' where "evs' = pre' @ SharedMemory_valid False # post" by blast
      from Cons.IH [OF rec this] out show ?thesis by simp
    qed
  qed
qed

lemma while_loop_not_pending:
  "\<exists>i \<in> set inputs. \<not> valid i \<Longrightarrow> while_loop W H inputs st = (evs, out) \<Longrightarrow> out \<noteq> Pending s"
proof (induction inputs arbitrary: st evs out)
  case Nil
  then show ?case by simp
next
  case (Cons i rest)
  show ?case
  proof (cases "valid i")
    case False
    with Cons.prems(2) show ?thesis by auto
  next
    case True
    with Cons.prems(1) have ex: "\<exists>i \<in> set rest. \<not> valid i" by auto
    show ?thesis
      using True Cons.prems(2) Cons.IH [OF ex]
      by (auto split: prod.splits sum.splits if_splits)
  qed
qed

lemma loop_body_no_poll:
  "loop_body W H r st = (evs, out) \<Longrightarrow> \<forall>e \<in> set evs. \<not> is_poll e"
  by (auto simp: loop_body_def locked_block_def publish_def is_poll_def
           split: if_splits sum.splits prod.splits)

lemma loop_body_one_cycle:
  "loop_body W H r st = (evs, Inr st') \<Longrightarrow>
   length (filter (\<lambda>e. e = SharedMemory_wait) evs) = 1 \<and> length (filter is_encode evs) = 1"
  by (auto simp: loop_body_def locked_block_def publish_def is_encode_def
           split: if_splits sum.splits prod.splits)

lemma while_loop_starts_with_poll:
  "while_loop W H inputs st = (evs, out) \<Longrightarrow> evs = [] \<or> (\<exists>u r. evs = SharedMemory_valid u # r)"
  by (cases inputs) (auto split: if_splits sum.splits prod.splits)

lemma split_at_first:
  "xs @ ys = pre @ e # post \<Longrightarrow> \<forall>x \<in> set xs. \<not> P x \<Longrightarrow> P e \<Longrightarrow>
   \<exists>pre'. pre = xs @ pre' \<and> ys = pre' @ e # post"
proof (induction xs arbitrary: pre)
  case Nil
  then show ?case by simp
next
  case (Cons x xs)
  then show ?case by (cases pre) auto
qed

lemma one_cycle_between_polls:
  "while_loop W H inputs st = (evs, out) \<Longrightarrow>
   evs = a @ SharedMemory_valid True # b @ SharedMemory_valid v # c \<Longrightarrow>
   \<forall>e \<in> set b. \<not> is_poll e \<Longrightarrow>
   length (filter (\<lambda>e. e = SharedMemory_wait) b) = 1 \<and> length (filter is_encode b) = 1"
proof (induction inputs arbitrary: st evs out a)
  case Nil
  then show ?case by simp
next
  case (Cons i rest)
  obtain bevs bout where body: "loop_body W H (reply i) st = (bevs, bout)"
    by (cases "loop_body W H (reply i) st")
  let ?head = "OD4Session_isRunning True # bevs"
  have nopoll: "\<forall>e \<in> set ?head. \<not> is_poll e"
    using loop_body_no_poll [OF body] by (simp add: is_poll_def)
  have pv: "is_poll (SharedMemory_valid u)" for u by (simp add: is_poll_def)
  show ?case
  proof (cases "valid i \<and> isRunning i")
    case False
    with Cons.prems(1,2) show ?thesis
      by (cases a; cases b) (auto split: if_splits simp: Cons_eq_append_conv)
  next
    case True
    obtain evs' where evs: "evs = SharedMemory_valid True # ?head @ evs'"
      and rec: "\<forall>st1. bout = Inr st1 \<longrightarrow> while_loop W H rest st1 = (evs', out)"
      and stop: "(\<exists>f. bout = Inl f) \<longrightarrow> evs' = []"
      using True body Cons.prems(1) by (cases bout) (auto split: prod.splits)
    show ?thesis
    proof (cases a)
      case Nil
      with evs Cons.prems(2) have "?head @ evs' = b @ SharedMemory_valid v # c" by simp
      from split_at_first [OF this nopoll pv]
      obtain b' where b: "b = ?head @ b'" and evs': "evs' = b' @ SharedMemory_valid v # c" by blast
      from evs' stop obtain st1 where bout: "bout = Inr st1" by (cases bout) auto
      with rec have "while_loop W H rest st1 = (evs', out)" by simp
      from while_loop_starts_with_poll [OF this] evs'
      obtain u r where "b' @ SharedMemory_valid v # c = SharedMemory_valid u # r" by auto
      with Cons.prems(3) b pv have "b' = []" by (cases b') auto
      moreover have "\<not> is_encode (OD4Session_isRunning True)" by (simp add: is_encode_def)
      ultimately show ?thesis
        using b loop_body_one_cycle [OF body [unfolded bout]] by simp
    next
      case (Cons x a')
      with evs Cons.prems(2) have
        "?head @ evs' = a' @ SharedMemory_valid True # b @ SharedMemory_valid v # c" by simp
      from split_at_first [OF this nopoll pv]
      obtain a'' where evs': "evs' = a'' @ SharedMemory_valid True # b @ SharedMemory_valid v # c"
        by blast
      from evs' stop obtain st1 where bout: "bout = Inr st1" by (cases bout) auto
      with rec have "while_loop W H rest st1 = (evs', out)" by simp
      from Cons.IH [OF this evs' Cons.prems(3)] show ?thesis .
    qed
  qed
qed
















lemma loop_body_no_InitializeExt:
  "loop_body W H r st = (evs, out) \<Longrightarrow> InitializeExt p \<notin> set evs"
  by (auto simp: loop_body_def locked_block_def publish_def split: if_splits sum.splits prod.splits)

lemma while_loop_no_InitializeExt:
  "while_loop W H inputs st = (evs, out) \<Longrightarrow> InitializeExt p \<notin> set evs"
proof (induction inputs arbitrary: st evs out)
  case Nil
  then show ?case by simp
next
  case (Cons i rest)
  then show ?case
    by (auto split: prod.splits sum.splits if_splits dest: loop_body_no_InitializeExt)
qed

lemma main_InitializeExt:
  assumes "InitializeExt p \<in> set (fst (main args env inputs))"
  shows "\<exists>cfg. read_settings args = Inr cfg
           \<and> p = parameters (GetDefaultParams env) (WIDTH cfg) (HEIGHT cfg) (GOP cfg)"
  using assms
  by (auto simp: main_def loop_and_shutdown_def Let_def
           split: if_splits sum.splits prod.splits loop_outcome.splits
           dest: while_loop_no_InitializeExt)

lemma map_sum_eq_Inr: "map_sum f g x = Inr y \<longleftrightarrow> (\<exists>z. x = Inr z \<and> y = g z)"
  by (cases x) auto

lemma read_settings_fields:
  assumes "read_settings args = Inr cfg"
  shows "(\<exists>w. stoi (subscript args ''width'') = Inr w \<and> WIDTH cfg = word_of_int w)
       \<and> (\<exists>h. stoi (subscript args ''height'') = Inr h \<and> HEIGHT cfg = word_of_int h)
       \<and> (subscript args ''gop'' = [] \<longrightarrow> GOP cfg = 10)
       \<and> (subscript args ''gop'' \<noteq> [] \<longrightarrow>
            (\<exists>g. stoi (subscript args ''gop'') = Inr g \<and> GOP cfg = word_of_int g))"
  using assms
  by (auto simp: read_settings_def GOP_DEFAULT_def map_sum_eq_Inr split: sum.splits if_splits)

lemma stoi_examples: "stoi ''640'' = Inr 640" "stoi ''480'' = Inr 480" "stoi ''111'' = Inr 111"
  by (simp_all add: stoi_def isspace_def isdigit_def digits_value_def INT_MAX_def)

lemma example_body:
  "loop_body 4 4 example_reply example_state =
     ([SharedMemory_wait, SharedMemory_lock, EncodeFrame (sourceFrame 4 4), SharedMemory_unlock,
       OD4Session_send \<lparr> format = ''h264'', width = 4, height = 4,
                          data = [1, 2, 3, 4, 5, 6, 7, 8, 9] \<rparr>],
      Inr \<lparr> h264Buffer = [1, 2, 3, 4, 5, 6, 7, 8, 9] @ replicate 7 48,
            h264DataForImageReading = [1, 2, 3, 4, 5, 6, 7, 8, 9] \<rparr>)"
  by (simp add: run_defs)

lemma example_main_InitializeExt:
  "InitializeExt (parameters example_defaults 640 480 10)
     \<in> set (fst (main example_arguments example_startup []))"
  by (simp add: main_defs example_arguments_def stoi_examples)

lemma other_main_InitializeExt:
  "InitializeExt (parameters example_defaults 1920 1080 25)
     \<in> set (fst (main other_arguments example_startup []))"
  by (simp add: main_defs other_arguments_def stoi_defs)

section \<open>The claims\<close>

subsection \<open>Assembly and the scratch buffer\<close>

text \<open>
  The concatenation law, where the copy is defined: for a well-formed result whose NAL
  lengths total at most the size of the buffer, the assembled string is the concatenation
  of the NAL payloads, layer by layer and NAL by NAL, its length is the sum of the NAL
  lengths, and the buffer holds it in front of its untouched rest.
\<close>

lemma assemble_law:
  assumes "frame_ok fi" "total_size fi \<le> int (length buf)"
  shows "assemble fi buf [] = Inr (access_unit_of fi @ drop (nat (total_size fi)) buf, access_unit_of fi)
       \<and> int (length (access_unit_of fi)) = total_size fi
       \<and> access_unit_of fi = concat (map (\<lambda>l. concat (nal_payloads l)) (layers fi))
       \<and> total_size fi = sum_list (map (\<lambda>l. sum_list (nal_lengths l)) (layers fi))"
  using assemble_concatenation [OF assms] length_access_unit_of [OF assms(1)]
  by (simp add: access_unit_of_def total_size_def layer_size_def [abs_def])

text \<open>
  Claim C1 says the law holds for every successful, non-skipped result. The program
  copies without comparing sizes: for the 16 by 16 picture the buffer has 256 bytes, the
  key frame \<open>oversized_frame\<close> (well formed, by \<open>oversized_frame_ok\<close>) has 300, and the
  copy of its second layer writes past the end of \<open>h264Buffer\<close>. The iteration has no
  defined behaviour from there on; no access unit of 300 bytes is assembled.
\<close>

theorem oversized_access_unit_overflows:
  "total_size oversized_frame = 300
   \<and> length (h264Buffer_init 16 16) = 256
   \<and> loop_body 16 16 \<lparr> result = cmResultSuccess, frameInfo = oversized_frame \<rparr>
        \<lparr> h264Buffer = h264Buffer_init 16 16, h264DataForImageReading = [] \<rparr>
      = ([SharedMemory_wait, SharedMemory_lock, EncodeFrame (sourceFrame 16 16)],
         Inl WriteOutOfBounds)"
  by (simp add: h264Buffer_init_def oversized_frame_def assemble_def memcpy_def read_at_def
        int_add_def INT_MAX_def frame_ok_def layers_def layer_ok_def nal_lengths_def
        layer_size_def total_size_def loop_body_def locked_block_def
        layer_loop.simps sizeOfLayer_loop.simps)

text \<open>
  Claim C2, as amended. The scratch buffer is sized at initialization to \<open>W*H\<close> bytes,
  the product taken in \<open>uint32_t\<close>; every iteration that runs to its end leaves it at that
  size (it is reused, never resized); and for a well-formed result whose NAL lengths total
  at most the size of the buffer, the assembly is defined: every copy stays within the
  buffer.
\<close>

theorem scratch_buffer_bounds:
  "length (h264Buffer_init W H) = unat (W * H)
   \<and> (\<forall>r st evs st'. loop_body W H r st = (evs, Inr st') \<longrightarrow>
         length (h264Buffer st') = length (h264Buffer st))
   \<and> (frame_ok fi \<and> total_size fi \<le> int (length buf) \<longrightarrow>
         (\<exists>buf' dat'. assemble fi buf dat = Inr (buf', dat') \<and> length buf' = length buf))"
  using h264Buffer_init_length loop_body_length assemble_keeps_size by blast

theorem scratch_buffer_bounds_witness:
  "length (h264Buffer_init 4 4) = 16 \<and> frame_ok example_frame
   \<and> total_size example_frame \<le> int (length (h264Buffer_init 4 4))
   \<and> (\<exists>buf' dat'. assemble example_frame (h264Buffer_init 4 4) [] = Inr (buf', dat')
         \<and> length buf' = 16)"
  using scratch_buffer_bounds [of 4 4 example_frame "h264Buffer_init 4 4" "[]"] example_frame_ok
  by (simp add: h264Buffer_init_def)

text \<open>
  Claim C2 as stated fails twice at \<open>W = H = 16\<close>: the buffer has 256 bytes, not the 384 of
  the raw frame, and the assembly of \<open>oversized_frame\<close> (well formed, by
  \<open>oversized_frame_ok\<close>) copies out of its bounds.
\<close>

theorem undersized_buffer_counterexample:
  "length (h264Buffer_init 16 16) = 256
   \<and> length (h264Buffer_init 16 16) \<noteq> 16 * 16 * 3 div 2
   \<and> total_size oversized_frame = 300
   \<and> assemble oversized_frame (h264Buffer_init 16 16) [] = Inl WriteOutOfBounds"
  by (simp add: h264Buffer_init_def oversized_frame_def assemble_def memcpy_def read_at_def
        int_add_def INT_MAX_def frame_ok_def layers_def layer_ok_def nal_lengths_def
        layer_size_def total_size_def layer_loop.simps sizeOfLayer_loop.simps)

subsection \<open>One iteration\<close>

text \<open>
  Claim C3. In an iteration whose encode result is classified as a skipped frame, whatever
  the return value of the encoder, the iteration runs to its end with an empty access
  unit (\<open>h264DataForImageReading\<close>), the buffer untouched, and no \<open>send\<close> among its calls.
\<close>

theorem skip_publishes_nothing:
  "eFrameType (frameInfo r) = videoFrameTypeSkip \<Longrightarrow>
   \<exists>evs st'. loop_body W H r st = (evs, Inr st')
      \<and> h264DataForImageReading st' = []
      \<and> h264Buffer st' = h264Buffer st
      \<and> (\<forall>m. OD4Session_send m \<notin> set evs)"
  by (auto simp: loop_body_def locked_block_def publish_def)

theorem skip_publishes_nothing_witness:
  "eFrameType (frameInfo skip_reply) = videoFrameTypeSkip
   \<and> (\<exists>evs st'. loop_body 4 4 skip_reply
                      (example_state \<lparr> h264DataForImageReading := [1, 2, 3] \<rparr>) = (evs, Inr st')
         \<and> h264DataForImageReading st' = []
         \<and> h264Buffer st' = h264Buffer example_state
         \<and> (\<forall>m. OD4Session_send m \<notin> set evs))"
  using skip_publishes_nothing [of skip_reply 4 4 "example_state \<lparr> h264DataForImageReading := [1, 2, 3] \<rparr>"]
  by (simp add: skip_reply_def)

text \<open>
  Claim C4. In an iteration whose encode call returns an error status, the calls are
  wait, lock, encode, the error message, unlock: nothing is sent, the buffer is as it was
  and the access unit is empty (no assembly), and the loop goes on to its next condition
  check, and from there to the next wait, in that state.
\<close>

theorem encode_error_drops_frame:
  assumes "result (reply i) \<noteq> cmResultSuccess" "valid i" "isRunning i"
  shows "loop_body W H (reply i) st =
     ([SharedMemory_wait, SharedMemory_lock, EncodeFrame (sourceFrame W H),
       cerr_failed_to_encode (result (reply i)), SharedMemory_unlock],
      Inr (st \<lparr> h264DataForImageReading := [] \<rparr>))
   \<and> while_loop W H (i # rest) st =
     ([SharedMemory_valid True, OD4Session_isRunning True,
       SharedMemory_wait, SharedMemory_lock, EncodeFrame (sourceFrame W H),
       cerr_failed_to_encode (result (reply i)), SharedMemory_unlock]
        @ fst (while_loop W H rest (st \<lparr> h264DataForImageReading := [] \<rparr>)),
      snd (while_loop W H rest (st \<lparr> h264DataForImageReading := [] \<rparr>)))"
proof -
  have body: "loop_body W H (reply i) st =
     ([SharedMemory_wait, SharedMemory_lock, EncodeFrame (sourceFrame W H),
       cerr_failed_to_encode (result (reply i)), SharedMemory_unlock],
      Inr (st \<lparr> h264DataForImageReading := [] \<rparr>))"
    using assms(1) by (auto simp: loop_body_def locked_block_def publish_def)
  with assms(2,3) show ?thesis by (simp split: prod.splits)
qed

theorem encode_error_drops_frame_witness:
  "result failed_reply \<noteq> cmResultSuccess
   \<and> while_loop 4 4 [\<lparr> valid = True, isRunning = True, reply = failed_reply \<rparr>,
                      \<lparr> valid = True, isRunning = True, reply = example_reply \<rparr>] example_state =
     ([SharedMemory_valid True, OD4Session_isRunning True,
       SharedMemory_wait, SharedMemory_lock, EncodeFrame (sourceFrame 4 4),
       cerr_failed_to_encode 1, SharedMemory_unlock,
       SharedMemory_valid True, OD4Session_isRunning True,
       SharedMemory_wait, SharedMemory_lock, EncodeFrame (sourceFrame 4 4), SharedMemory_unlock,
       OD4Session_send \<lparr> format = ''h264'', width = 4, height = 4,
                          data = [1, 2, 3, 4, 5, 6, 7, 8, 9] \<rparr>],
      Pending \<lparr> h264Buffer = [1, 2, 3, 4, 5, 6, 7, 8, 9] @ replicate 7 48,
                h264DataForImageReading = [1, 2, 3, 4, 5, 6, 7, 8, 9] \<rparr>)"
  using encode_error_drops_frame [of "\<lparr> valid = True, isRunning = True, reply = failed_reply \<rparr>"
          4 4 example_state "[\<lparr> valid = True, isRunning = True, reply = example_reply \<rparr>]"]
  by (simp add: run_defs)

text \<open>
  Claim C6. Among the calls of one iteration there is at most one \<open>send\<close>; if there is
  one, the iteration ran to its end with a non-empty access unit, and the record sent has
  format \<open>''h264''\<close>, width \<open>W\<close>, height \<open>H\<close> and the access unit as its data.
\<close>

theorem publish_at_most_once:
  "loop_body W H r st = (evs, out) \<Longrightarrow>
   length (filter is_send evs) \<le> 1
   \<and> (\<forall>m. OD4Session_send m \<in> set evs \<longrightarrow>
        (\<exists>st'. out = Inr st' \<and> h264DataForImageReading st' \<noteq> []
           \<and> m = \<lparr> format = ''h264'', width = W, height = H,
                    data = h264DataForImageReading st' \<rparr>))"
  by (auto simp: loop_body_def locked_block_def publish_def is_send_def
           split: if_splits sum.splits prod.splits)

theorem publish_at_most_once_witness:
  "length (filter is_send (fst (loop_body 4 4 example_reply example_state))) \<le> 1
   \<and> OD4Session_send \<lparr> format = ''h264'', width = 4, height = 4,
                         data = [1, 2, 3, 4, 5, 6, 7, 8, 9] \<rparr>
       \<in> set (fst (loop_body 4 4 example_reply example_state))"
  using publish_at_most_once [OF example_body] by (simp add: example_body)

text \<open>
  What holds of the lock. Every iteration that runs to its end made its calls in this
  order: wait, lock, encode, at most a message on \<open>cerr\<close>, unlock, and only then the
  \<open>send\<close>, if any. An iteration runs to its end after an encode failure and after a skip
  in all cases, and after a successful encode whenever the copy of the result is defined
  (the result is well formed and fits the buffer).
\<close>

lemma unlock_when_iteration_ends:
  "(\<forall>evs st'. loop_body W H r st = (evs, Inr st') \<longrightarrow>
      (\<exists>logs. evs = [SharedMemory_wait, SharedMemory_lock, EncodeFrame (sourceFrame W H)] @ logs
                       @ [SharedMemory_unlock] @ publish W H st'
         \<and> set logs \<subseteq> {cerr_skipping_frame, cerr_failed_to_encode (result r)}
         \<and> (\<forall>e \<in> set (publish W H st'). is_send e)))
   \<and> (result r \<noteq> cmResultSuccess \<or> eFrameType (frameInfo r) = videoFrameTypeSkip \<longrightarrow>
        (\<exists>evs st'. loop_body W H r st = (evs, Inr st')))
   \<and> (frame_ok (frameInfo r) \<and> total_size (frameInfo r) \<le> int (length (h264Buffer st)) \<longrightarrow>
        (\<exists>evs st'. loop_body W H r st = (evs, Inr st')))"
proof (intro conjI allI impI)
  fix evs st'
  assume "loop_body W H r st = (evs, Inr st')"
  then show "\<exists>logs. evs = [SharedMemory_wait, SharedMemory_lock, EncodeFrame (sourceFrame W H)] @ logs
                       @ [SharedMemory_unlock] @ publish W H st'
         \<and> set logs \<subseteq> {cerr_skipping_frame, cerr_failed_to_encode (result r)}
         \<and> (\<forall>e \<in> set (publish W H st'). is_send e)"
    by (auto simp: loop_body_def locked_block_def publish_def is_send_def
             split: if_splits sum.splits prod.splits)
next
  assume "result r \<noteq> cmResultSuccess \<or> eFrameType (frameInfo r) = videoFrameTypeSkip"
  then show "\<exists>evs st'. loop_body W H r st = (evs, Inr st')"
    by (auto simp: loop_body_def locked_block_def)
next
  assume "frame_ok (frameInfo r) \<and> total_size (frameInfo r) \<le> int (length (h264Buffer st))"
  then obtain buf' dat' where
    "assemble (frameInfo r) (h264Buffer st) [] = Inr (buf', dat')"
    using assemble_keeps_size [of "frameInfo r" "h264Buffer st" "[]"] by blast
  then show "\<exists>evs st'. loop_body W H r st = (evs, Inr st')"
    by (auto simp: loop_body_def locked_block_def)
qed

text \<open>
  Claim C7 says that unlock executes after every successful encode as well. It does not
  when the result does not fit the buffer: for the 16 by 16 picture and the key frame
  \<open>oversized_frame\<close> (well formed, by \<open>oversized_frame_ok\<close>) the copy on line 151 writes
  past the end of \<open>h264Buffer\<close> while the lock is held. The defined behaviour of the
  program ends there: the trace holds the lock and no unlock, and the loop does not reach
  its next condition check, although the environment had another iteration to offer.
\<close>

theorem lock_without_unlock:
  "while_loop 16 16
     [\<lparr> valid = True, isRunning = True, reply = oversized_reply \<rparr>,
      \<lparr> valid = True, isRunning = True, reply = skip_reply \<rparr>]
     \<lparr> h264Buffer = h264Buffer_init 16 16, h264DataForImageReading = [] \<rparr>
   = ([SharedMemory_valid True, OD4Session_isRunning True,
       SharedMemory_wait, SharedMemory_lock, EncodeFrame (sourceFrame 16 16)],
      Undefined WriteOutOfBounds)"
  by (simp add: run_defs oversized_frame_def)

subsection \<open>The loop\<close>

text \<open>
  What holds of the answers of \<open>valid()\<close>. Once it answers false the loop is over: that
  call is the last event of the loop, so no \<open>wait()\<close> and no \<open>EncodeFrame\<close> follows it, and
  the loop has exited. The loop cannot run past such an answer: if one of the answers to
  come is false, the loop is not left running. And between an answer true and the next
  call of \<open>valid()\<close> lie exactly one \<open>wait()\<close> and one \<open>EncodeFrame\<close>.
\<close>

lemma loop_exits_after_false_answer:
  assumes "while_loop W H inputs st = (evs, out)"
  shows "(\<forall>pre post. evs = pre @ SharedMemory_valid False # post \<longrightarrow>
            post = [] \<and> (\<exists>st'. out = Exited st'))
       \<and> ((\<exists>i \<in> set inputs. \<not> valid i) \<longrightarrow> (\<forall>s. out \<noteq> Pending s))
       \<and> (\<forall>a b v c. evs = a @ SharedMemory_valid True # b @ SharedMemory_valid v # c \<longrightarrow>
            (\<forall>e \<in> set b. \<not> is_poll e) \<longrightarrow>
            length (filter (\<lambda>e. e = SharedMemory_wait) b) = 1 \<and> length (filter is_encode b) = 1)"
  using while_loop_after_invalid [OF assms] while_loop_not_pending [OF _ assms]
    one_cycle_between_polls [OF assms]
  by blast




subsection \<open>Encoder parameters\<close>

text \<open>
  Claim C9. Whenever \<open>main\<close> calls \<open>InitializeExt\<close>, the parameters it passes have the
  width and height parsed from the command line as resolution (also in the one spatial
  layer), the quality rate-control mode, one spatial and one temporal layer, adaptive
  quantization and background detection on, denoising, frame skipping and long-term
  reference off, the constant parameter-set id strategy, and as intra period the parsed
  \<open>--gop\<close> value, or 10 when \<open>--gop\<close> is absent or empty.
\<close>

theorem initialization_parameters:
  assumes "InitializeExt p \<in> set (fst (main args env inputs))"
  shows "(\<exists>w. stoi (subscript args ''width'') = Inr w \<and> iPicWidth p = word_of_int w)
       \<and> (\<exists>h. stoi (subscript args ''height'') = Inr h \<and> iPicHeight p = word_of_int h)
       \<and> iVideoWidth (sSpatialLayers p 0) = iPicWidth p
       \<and> iVideoHeight (sSpatialLayers p 0) = iPicHeight p
       \<and> iRCMode p = RC_QUALITY_MODE
       \<and> iSpatialLayerNum p = 1 \<and> iTemporalLayerNum p = 1
       \<and> bEnableAdaptiveQuant p \<and> bEnableBackgroundDetection p
       \<and> \<not> bEnableDenoise p \<and> \<not> bEnableFrameSkip p \<and> \<not> bEnableLongTermReference p
       \<and> eSpsPpsIdStrategy p = CONSTANT_ID
       \<and> (args ''gop'' = None \<longrightarrow> uiIntraPeriod p = 10)
       \<and> (\<forall>s. args ''gop'' = Some s \<longrightarrow>
            (if s = [] then uiIntraPeriod p = 10
             else \<exists>g. stoi s = Inr g \<and> uiIntraPeriod p = word_of_int g))"
proof -
  from main_InitializeExt [OF assms] obtain cfg where
    cfg: "read_settings args = Inr cfg"
    and p: "p = parameters (GetDefaultParams env) (WIDTH cfg) (HEIGHT cfg) (GOP cfg)"
    by blast
  from read_settings_fields [OF cfg] show ?thesis
    unfolding p by (auto simp: parameters_def Let_def subscript_def)
qed

theorem initialization_parameters_witness:
  "InitializeExt (parameters example_defaults 640 480 10)
     \<in> set (fst (main example_arguments example_startup []))
   \<and> example_arguments ''gop'' = None
   \<and> uiIntraPeriod (parameters example_defaults 640 480 10) = 10
   \<and> iRCMode (parameters example_defaults 640 480 10) = RC_QUALITY_MODE
   \<and> iRCMode example_defaults \<noteq> RC_QUALITY_MODE"
  using initialization_parameters [OF example_main_InitializeExt] example_main_InitializeExt
  by (simp add: example_arguments_def example_defaults_def)

text \<open>
  Claim C10. Whenever \<open>main\<close> calls \<open>InitializeExt\<close>, whatever the command line, the
  answers of the environment and the defaults of the encoder, the parameters it passes
  have frame rate 20, target bit rate 2500000 and maximum bit rate 5000000, for the
  encoder as a whole and for its one spatial layer.
\<close>

theorem hard_coded_rates:
  assumes "InitializeExt p \<in> set (fst (main args env inputs))"
  shows "fMaxFrameRate p = 20 \<and> iTargetBitrate p = 2500000 \<and> iMaxBitrate p = 5000000
       \<and> fFrameRate (sSpatialLayers p 0) = 20
       \<and> iSpatialBitrate (sSpatialLayers p 0) = 2500000
       \<and> iMaxSpatialBitrate (sSpatialLayers p 0) = 5000000"
proof -
  from main_InitializeExt [OF assms] obtain cfg where
    cfg: "read_settings args = Inr cfg"
    and p: "p = parameters (GetDefaultParams env) (WIDTH cfg) (HEIGHT cfg) (GOP cfg)"
    by blast
  show ?thesis unfolding p by (simp add: parameters_def Let_def)
qed

theorem hard_coded_rates_witness:
  "InitializeExt (parameters example_defaults 1920 1080 25)
     \<in> set (fst (main other_arguments example_startup []))
   \<and> fMaxFrameRate (parameters example_defaults 1920 1080 25) = 20
   \<and> iTargetBitrate (parameters example_defaults 1920 1080 25) = 2500000
   \<and> iMaxBitrate (parameters example_defaults 1920 1080 25) = 5000000
   \<and> fMaxFrameRate example_defaults \<noteq> 20"
  using hard_coded_rates [OF other_main_InitializeExt] other_main_InitializeExt
  by (simp add: example_defaults_def)

subsection \<open>Plane layout of the source picture\<close>

text \<open>
  Claim C5, as amended. For even \<open>W\<close> and \<open>H\<close> whose third plane offset
  \<open>W*H + (W/2)*(H/2)\<close> is below \<open>2^32\<close>, the plane pointers handed to the encoder are at
  offsets \<open>0\<close>, \<open>W*H\<close> and \<open>W*H + (W/2)*(H/2)\<close> of the shared memory, the strides are
  \<open>W\<close>, \<open>W/2\<close>, \<open>W/2\<close>, and the expression of the source, \<open>W*H + (W*H >> 2)\<close>, equals
  \<open>W*H + (W/2)*(H/2)\<close>. The bound is needed: the source computes the offsets in
  \<open>uint32_t\<close>.
\<close>

theorem plane_layout:
  assumes "even W" "even H"
    and fit: "unat W * unat H + (unat W div 2) * (unat H div 2) < 4294967296"
  shows "pData (sourceFrame W H) =
           [Some 0, Some (unat W * unat H),
            Some (unat W * unat H + (unat W div 2) * (unat H div 2)), None]
       \<and> iStride (sourceFrame W H) = [W, W div 2, W div 2, 0]
       \<and> W * H + drop_bit 2 (W * H) = W * H + (W div 2) * (H div 2)"
proof -
  have "unat W * unat H < 4294967296" using fit by linarith
  then have "unat W * unat H < 2 ^ LENGTH(32)" by (simp only: len32)
  then have prod: "unat (W * H) = unat W * unat H"
    by (rule unat_mult_lem [THEN iffD1])
  have ew: "even (unat W)" "even (unat H)"
    using assms(1,2) by (simp_all add: even_unat)
  have quarter: "unat W * unat H div 4 = (unat W div 2) * (unat H div 2)"
    using ew by (auto elim!: evenE)
  have sh: "unat (drop_bit 2 (W * H)) = (unat W div 2) * (unat H div 2)"
    using prod quarter by (simp add: drop_bit_eq_div unat_div)
  have "unat (W * H) + unat (drop_bit 2 (W * H)) < 2 ^ LENGTH(32)"
    using fit unfolding prod sh len32 .
  then have sum: "unat (W * H + drop_bit 2 (W * H)) = unat (W * H) + unat (drop_bit 2 (W * H))"
    by (rule unat_add_lem [THEN iffD1])
  have hw: "unat (W div 2) = unat W div 2" "unat (H div 2) = unat H div 2"
    by (simp_all add: unat_div)
  have "unat (W div 2) * unat (H div 2) < 2 ^ LENGTH(32)"
    using fit unfolding hw len32 by linarith
  then have "unat ((W div 2) * (H div 2)) = unat (W div 2) * unat (H div 2)"
    by (rule unat_mult_lem [THEN iffD1])
  then have "unat (drop_bit 2 (W * H)) = unat ((W div 2) * (H div 2))"
    using sh hw by simp
  then have "drop_bit 2 (W * H) = (W div 2) * (H div 2)"
    by (simp add: word_unat_eq_iff)
  then show ?thesis
    using prod sum sh by (simp add: sourceFrame_def plane_offsets_def)
qed

theorem plane_layout_witness:
  "even (640 :: uint32_t) \<and> even (480 :: uint32_t)
   \<and> pData (sourceFrame 640 480) = [Some 0, Some 307200, Some 384000, None]
   \<and> iStride (sourceFrame 640 480) = [640, 320, 320, 0]"
  using plane_layout [of 640 480] by simp

text \<open>
  Claim C5 as stated, for all even \<open>W\<close> and \<open>H\<close>, fails at \<open>W = H = 65536\<close>: the product
  wraps to 0 in \<open>uint32_t\<close>, so all three plane pointers are the start of the shared
  memory, and the expression of the source differs from \<open>W*H + (W/2)*(H/2)\<close> even when
  that is taken in \<open>uint32_t\<close>.
\<close>

theorem wrapped_offsets_counterexample:
  "even (65536 :: uint32_t)
   \<and> pData (sourceFrame 65536 65536) = [Some 0, Some 0, Some 0, None]
   \<and> pData (sourceFrame 65536 65536) \<noteq>
       [Some 0, Some (65536 * 65536), Some (65536 * 65536 + (65536 div 2) * (65536 div 2)), None]
   \<and> (65536 :: uint32_t) * 65536 + drop_bit 2 (65536 * 65536)
       \<noteq> 65536 * 65536 + (65536 div 2) * (65536 div 2)"
  by (simp add: sourceFrame_def plane_offsets_def)

end
